theory Spec2Isabelle
  imports Complex_Main "HOL-Library.AList" "HOL-Library.Product_Lexorder" "HOL-Library.Word"
begin

section \<open>Strings\<close>

text \<open>
  A JavaScript string is a sequence of UTF-16 code units; \<open>length\<close>, \<open>charCodeAt\<close>,
  \<open>split\<close> and \<open>trim\<close> all work on code units. A string is modelled as the list of its
  code units, each a natural number below 65536. \<open>js\<close> turns a literal into that list.
\<close>

type_synonym jsstring = "nat list"

definition js :: "string \<Rightarrow> jsstring" where
  "js s = map of_char s"

text \<open>
  The characters matched by \<open>\s\<close> and removed by \<open>trim\<close>: the WhiteSpace and LineTerminator
  code points of ECMAScript.
\<close>

definition isWhiteSpace :: "nat \<Rightarrow> bool" where
  "isWhiteSpace c =
     (c = 9 \<or> c = 10 \<or> c = 11 \<or> c = 12 \<or> c = 13 \<or> c = 32 \<or> c = 160 \<or> c = 5760
      \<or> (8192 \<le> c \<and> c \<le> 8202) \<or> c = 8232 \<or> c = 8233 \<or> c = 8239 \<or> c = 8287
      \<or> c = 12288 \<or> c = 65279)"

text \<open>The character class \<open>[.!?]\<close>.\<close>

definition isSentenceEnd :: "nat \<Rightarrow> bool" where
  "isSentenceEnd c = (c = 46 \<or> c = 33 \<or> c = 63)"

definition trim :: "jsstring \<Rightarrow> jsstring" where
  "trim s = rev (dropWhile isWhiteSpace (rev (dropWhile isWhiteSpace s)))"

text \<open>
  \<open>s.split(/C+/)\<close> for a character class \<open>C\<close>: the pieces between maximal runs of
  separator characters. A run at the start or at the end leaves an empty piece there, and
  the empty string splits into one empty piece. The flag says that the previous character
  belonged to a run.
\<close>

fun splitRuns :: "(nat \<Rightarrow> bool) \<Rightarrow> bool \<Rightarrow> jsstring \<Rightarrow> jsstring list" where
  "splitRuns sep inRun [] = [[]]"
| "splitRuns sep inRun (c # cs) =
     (if sep c then (if inRun then splitRuns sep True cs else [] # splitRuns sep True cs)
      else (case splitRuns sep False cs of
              [] \<Rightarrow> [[c]]
            | w # ws \<Rightarrow> (c # w) # ws))"

definition splitRegex :: "(nat \<Rightarrow> bool) \<Rightarrow> jsstring \<Rightarrow> jsstring list" where
  "splitRegex sep s = splitRuns sep False s"

text \<open>\<open>s.split(' ')\<close>: every single occurrence of the separator ends a piece.\<close>

fun splitChar :: "nat \<Rightarrow> jsstring \<Rightarrow> jsstring list" where
  "splitChar d [] = [[]]"
| "splitChar d (c # cs) =
     (if c = d then [] # splitChar d cs
      else (case splitChar d cs of
              [] \<Rightarrow> [[c]]
            | w # ws \<Rightarrow> (c # w) # ws))"

text \<open>\<open>words.join(' ')\<close>.\<close>

fun joinWith :: "nat \<Rightarrow> jsstring list \<Rightarrow> jsstring" where
  "joinWith d [] = []"
| "joinWith d [w] = w"
| "joinWith d (w # v # ws) = w @ d # joinWith d (v # ws)"

text \<open>
  \<open>words.slice(-k)\<close> for a number \<open>k \<ge> 0\<close>: the start index is \<open>-k\<close> truncated towards
  zero. A \<open>k\<close> below 1 truncates to (minus) zero, and \<open>slice(0)\<close> is the whole array;
  otherwise the last \<open>trunc k\<close> elements remain. The argument here is \<open>trunc k\<close>.
\<close>

definition sliceLast :: "nat \<Rightarrow> 'a list \<Rightarrow> 'a list" where
  "sliceLast k xs = (if k = 0 then xs else drop (length xs - k) xs)"

section \<open>The chunker\<close>

text \<open>
  The loop body of \<open>chunkText\<close>, one sentence at a time. The state is the list of chunks
  closed so far and the running buffer \<open>currentChunk\<close>. \<open>maxChunkSize\<close> and \<open>overlap\<close> are
  non-negative integers (1000 and 100 by default), so that
  \<open>trunc (min (overlap / 5) (words.length / 2))\<close> is \<open>min (overlap div 5) (length words div 2)\<close>.
\<close>

fun chunkLoop :: "nat \<Rightarrow> nat \<Rightarrow> jsstring list \<Rightarrow> jsstring \<Rightarrow> jsstring list
    \<Rightarrow> jsstring list \<times> jsstring" where
  "chunkLoop maxChunkSize overlap chunks currentChunk [] = (chunks, currentChunk)"
| "chunkLoop maxChunkSize overlap chunks currentChunk (sentence # sentences) =
     (let trimmedSentence = trim sentence in
      if trimmedSentence = [] then chunkLoop maxChunkSize overlap chunks currentChunk sentences
      else
        let proposedChunk =
              currentChunk @ (if currentChunk \<noteq> [] then js ''. '' else []) @ trimmedSentence
        in
        if length proposedChunk \<le> maxChunkSize
        then chunkLoop maxChunkSize overlap chunks proposedChunk sentences
        else if currentChunk \<noteq> [] then
          let words = splitChar 32 currentChunk;
              overlapWords = sliceLast (min (overlap div 5) (length words div 2)) words
          in chunkLoop maxChunkSize overlap (chunks @ [currentChunk @ js ''.''])
               (joinWith 32 overlapWords @ (if overlapWords \<noteq> [] then js ''. '' else [])
                  @ trimmedSentence)
               sentences
        else chunkLoop maxChunkSize overlap chunks trimmedSentence sentences)"

definition chunkText :: "jsstring \<Rightarrow> nat \<Rightarrow> nat \<Rightarrow> jsstring list" where
  "chunkText text maxChunkSize overlap =
     (let sentences = filter (\<lambda>s. length (trim s) > 0) (splitRegex isSentenceEnd text);
          (chunks, currentChunk) = chunkLoop maxChunkSize overlap [] [] sentences;
          chunks' = (if currentChunk \<noteq> [] then chunks @ [currentChunk @ js ''.''] else chunks)
      in filter (\<lambda>chunk. length (trim chunk) > 10) chunks')"

section \<open>The embedding provider\<close>

text \<open>
  In the fallback vector the numbers are modelled as real numbers. Its slots hold counts and
  tenths, bounded by the length of the text and far from overflow and underflow, so that
  only the rounding of the doubles is left out there. The cosine similarity receives
  arbitrary stored vectors and is modelled with the arithmetic of doubles.
\<close>

definition EMBEDDING_DIMENSIONS :: nat where
  "EMBEDDING_DIMENSIONS = 3072"

subsection \<open>The local fallback vector\<close>

text \<open>
  \<open>simpleHash\<close>: \<open>hash << 5\<close> and \<open>hash & hash\<close> work on 32-bit two's complement integers and
  the intermediate sum is an exact integer, so the loop is arithmetic modulo \<open>2 ^ 32\<close>.
  \<open>Math.abs\<close> is taken of the signed value.
\<close>

fun hashLoop :: "32 word \<Rightarrow> jsstring \<Rightarrow> 32 word" where
  "hashLoop hash [] = hash"
| "hashLoop hash (char # str) = hashLoop ((push_bit 5 hash - hash) + of_nat char) str"

definition simpleHash :: "jsstring \<Rightarrow> nat" where
  "simpleHash str = nat \<bar>sint (hashLoop 0 str)\<bar>"

text \<open>The first loop: one is added to the slot of every word.\<close>

fun addWords :: "real list \<Rightarrow> jsstring list \<Rightarrow> real list" where
  "addWords vector [] = vector"
| "addWords vector (word # words) =
     (let i = simpleHash word mod EMBEDDING_DIMENSIONS
      in addWords (vector[i := vector ! i + 1]) words)"

text \<open>The second loop: a tenth is added to the slot of every code unit of the text.\<close>

fun addChars :: "real list \<Rightarrow> jsstring \<Rightarrow> real list" where
  "addChars vector [] = vector"
| "addChars vector (charCode # text) =
     (let i = (charCode * 17) mod EMBEDDING_DIMENSIONS
      in addChars (vector[i := vector ! i + 1 / 10]) text)"

text \<open>\<open>Math.sqrt(vector.reduce((sum, val) => sum + val * val, 0))\<close>.\<close>

definition magnitude :: "real list \<Rightarrow> real" where
  "magnitude vector = sqrt (foldl (\<lambda>sum val. sum + val * val) 0 vector)"

text \<open>
  The vector before normalisation. \<open>toLowerCase\<close> is the lower-casing of the JavaScript
  engine, a parameter of the model. Both indices are below 3072, the length of the vector,
  so no update falls outside it.
\<close>

definition rawVector :: "(jsstring \<Rightarrow> jsstring) \<Rightarrow> jsstring \<Rightarrow> real list" where
  "rawVector toLowerCase text =
     (let vector = replicate EMBEDDING_DIMENSIONS 0;
          words = splitRegex isWhiteSpace (toLowerCase text)
      in addChars (addWords vector words) text)"

definition generateSimpleVector :: "(jsstring \<Rightarrow> jsstring) \<Rightarrow> jsstring \<Rightarrow> real list" where
  "generateSimpleVector toLowerCase text =
     (let vector = rawVector toLowerCase text;
          magnitude = magnitude vector
      in if magnitude > 0 then map (\<lambda>val. val / magnitude) vector else vector)"

subsection \<open>The remote call\<close>

text \<open>The body of a response, as \<open>response.json()\<close> parses it.\<close>

datatype json =
    JNull
  | JBool bool
  | JNum real
  | JStr jsstring
  | JArr "json list"
  | JObj "(jsstring \<times> json) list"

text \<open>
  What the request ends in: \<open>fetch\<close> rejects, the status is not ok, the body is not JSON,
  or the body parses.
\<close>

datatype response = NetworkError | StatusNotOk | BodyNotJson | Body json

text \<open>
  Reading a named property. \<open>None\<close> stands for \<open>undefined\<close>, and also for the TypeError
  of reading a property of \<open>null\<close>: inside the \<open>try\<close> block both end in the \<open>catch\<close>.
\<close>

fun getProp :: "json \<Rightarrow> jsstring \<Rightarrow> json option" where
  "getProp (JObj members) key = map_of members key"
| "getProp _ key = None"

text \<open>Reading index 0: of an array, of a string (its first character) or of an object.\<close>

fun index0 :: "json \<Rightarrow> json option" where
  "index0 (JArr (x # xs)) = Some x"
| "index0 (JStr (c # cs)) = Some (JStr [c])"
| "index0 (JObj members) = map_of members (js ''0'')"
| "index0 _ = None"

fun truthy :: "json \<Rightarrow> bool" where
  "truthy JNull = False"
| "truthy (JBool b) = b"
| "truthy (JNum x) = (x \<noteq> 0)"
| "truthy (JStr s) = (s \<noteq> [])"
| "truthy (JArr xs) = True"
| "truthy (JObj members) = True"

text \<open>
  The declared result type is \<open>number[]\<close>; the code checks that the value is an array and
  that its length is 3072, not what its elements are. An element that is not a number is
  read as 0 here, which leaves the length alone.
\<close>

fun toNumber :: "json \<Rightarrow> real" where
  "toNumber (JNum x) = x"
| "toNumber _ = 0"

text \<open>
  The checks on the parsed body, in the order of the source; \<open>None\<close> is a thrown Error.
\<close>

definition validEmbedding :: "json \<Rightarrow> real list option" where
  "validEmbedding data =
     (case getProp data (js ''data'') of
        None \<Rightarrow> None
      | Some d \<Rightarrow>
          if \<not> truthy d then None
          else (case index0 d of
                  None \<Rightarrow> None
                | Some d0 \<Rightarrow>
                    if \<not> truthy d0 then None
                    else (case getProp d0 (js ''embedding'') of
                            None \<Rightarrow> None
                          | Some embedding \<Rightarrow>
                              if \<not> truthy embedding then None
                              else (case embedding of
                                      JArr xs \<Rightarrow>
                                        if length xs \<noteq> EMBEDDING_DIMENSIONS then None
                                        else Some (map toNumber xs)
                                    | _ \<Rightarrow> None))))"

text \<open>
  What \<open>generateEmbedding\<close> depends on besides the text: whether the API key is set, what
  the service answers for a text, and the engine's lower-casing.
\<close>

record provider =
  apiKey :: bool
  fetchEmbedding :: "jsstring \<Rightarrow> response"
  toLowerCase :: "jsstring \<Rightarrow> jsstring"

text \<open>
  Every \<open>throw\<close> of the function lies inside its \<open>try\<close> block, and the \<open>catch\<close> block
  returns the fallback vector: the function has no failing outcome.
\<close>

definition generateEmbedding :: "provider \<Rightarrow> jsstring \<Rightarrow> real list" where
  "generateEmbedding p text =
     (if \<not> apiKey p then generateSimpleVector (toLowerCase p) text
      else (case fetchEmbedding p text of
              Body data \<Rightarrow>
                (case validEmbedding data of
                   Some embedding \<Rightarrow> embedding
                 | None \<Rightarrow> generateSimpleVector (toLowerCase p) text)
            | _ \<Rightarrow> generateSimpleVector (toLowerCase p) text))"

subsection \<open>Double arithmetic\<close>

text \<open>
  A number is a finite double, one of the two infinities, or \<open>NaN\<close>; a finite double is
  the real number it denotes. The sign of zero is not modelled: the only division below has
  a product of two square roots as its divisor, which is never the negative zero.
\<close>

datatype jsnum = Fin real | PosInf | NegInf | NaN

text \<open>Rounding to the nearest integer, a tie to the even one.\<close>

definition roundHalfEven :: "real \<Rightarrow> int" where
  "roundHalfEven y =
     (let f = \<lfloor>y\<rfloor> in
      if y - of_int f < 1 / 2 then f
      else if 1 / 2 < y - of_int f then f + 1
      else if even f then f else f + 1)"

text \<open>
  Rounding of a real number to the nearest binary64 value, a tie to the even significand.
  The doubles of exponent \<open>e\<close> are the multiples of \<open>2 ^ (e - 52)\<close>; below \<open>2 ^ -1022\<close>, in
  the subnormal range, they are the multiples of \<open>2 ^ -1074\<close>.
\<close>

definition roundToDouble :: "real \<Rightarrow> real" where
  "roundToDouble x =
     (if x = 0 then 0
      else
        let e = max \<lfloor>log 2 \<bar>x\<bar>\<rfloor> (- 1022);
            ulp = 2 powr (of_int e - 52)
        in of_int (roundHalfEven (x / ulp)) * ulp)"

text \<open>
  The double that an operation with the exact result \<open>x\<close> returns. From
  \<open>2 ^ 1024 - 2 ^ 970\<close> on, half an ulp above the largest double, the result is an infinity.
\<close>

definition toDouble :: "real \<Rightarrow> jsnum" where
  "toDouble x =
     (if 2 ^ 1024 - 2 ^ 970 \<le> \<bar>x\<bar> then (if 0 < x then PosInf else NegInf)
      else Fin (roundToDouble x))"

text \<open>\<open>x + y\<close>.\<close>

fun jsAdd :: "jsnum \<Rightarrow> jsnum \<Rightarrow> jsnum" where
  "jsAdd (Fin x) (Fin y) = toDouble (x + y)"
| "jsAdd NaN y = NaN"
| "jsAdd x NaN = NaN"
| "jsAdd PosInf NegInf = NaN"
| "jsAdd NegInf PosInf = NaN"
| "jsAdd PosInf y = PosInf"
| "jsAdd x PosInf = PosInf"
| "jsAdd NegInf y = NegInf"
| "jsAdd x NegInf = NegInf"

text \<open>\<open>x * y\<close>.\<close>

fun jsMul :: "jsnum \<Rightarrow> jsnum \<Rightarrow> jsnum" where
  "jsMul (Fin x) (Fin y) = toDouble (x * y)"
| "jsMul NaN y = NaN"
| "jsMul x NaN = NaN"
| "jsMul PosInf (Fin y) = (if y = 0 then NaN else if 0 < y then PosInf else NegInf)"
| "jsMul NegInf (Fin y) = (if y = 0 then NaN else if 0 < y then NegInf else PosInf)"
| "jsMul (Fin x) PosInf = (if x = 0 then NaN else if 0 < x then PosInf else NegInf)"
| "jsMul (Fin x) NegInf = (if x = 0 then NaN else if 0 < x then NegInf else PosInf)"
| "jsMul PosInf PosInf = PosInf"
| "jsMul NegInf NegInf = PosInf"
| "jsMul PosInf NegInf = NegInf"
| "jsMul NegInf PosInf = NegInf"

text \<open>\<open>x / y\<close>, for a divisor that is not the negative zero.\<close>

fun jsDiv :: "jsnum \<Rightarrow> jsnum \<Rightarrow> jsnum" where
  "jsDiv (Fin x) (Fin y) =
     (if y = 0 then (if x = 0 then NaN else if 0 < x then PosInf else NegInf)
      else toDouble (x / y))"
| "jsDiv NaN y = NaN"
| "jsDiv x NaN = NaN"
| "jsDiv (Fin x) y = Fin 0"
| "jsDiv PosInf (Fin y) = (if 0 \<le> y then PosInf else NegInf)"
| "jsDiv NegInf (Fin y) = (if 0 \<le> y then NegInf else PosInf)"
| "jsDiv PosInf PosInf = NaN"
| "jsDiv PosInf NegInf = NaN"
| "jsDiv NegInf PosInf = NaN"
| "jsDiv NegInf NegInf = NaN"

text \<open>\<open>Math.sqrt(x)\<close>, the correctly rounded square root.\<close>

fun jsSqrt :: "jsnum \<Rightarrow> jsnum" where
  "jsSqrt (Fin x) = (if x < 0 then NaN else Fin (roundToDouble (sqrt x)))"
| "jsSqrt PosInf = PosInf"
| "jsSqrt x = NaN"

text \<open>\<open>x > y\<close>: false as soon as one side is \<open>NaN\<close>.\<close>

fun jsGreater :: "jsnum \<Rightarrow> jsnum \<Rightarrow> bool" where
  "jsGreater (Fin x) (Fin y) = (y < x)"
| "jsGreater NaN y = False"
| "jsGreater x NaN = False"
| "jsGreater PosInf PosInf = False"
| "jsGreater PosInf y = True"
| "jsGreater NegInf y = False"
| "jsGreater x NegInf = True"
| "jsGreater x PosInf = False"

subsection \<open>Cosine similarity\<close>

text \<open>
  The entries of a vector are finite numbers: JSON carries no others and
  \<open>generateSimpleVector\<close> produces no others. \<open>sumSquares\<close> is
  \<open>a.reduce((sum, val) => sum + val * val, 0)\<close>.
\<close>

definition sumSquares :: "real list \<Rightarrow> jsnum" where
  "sumSquares a = foldl (\<lambda>sum val. jsAdd sum (jsMul (Fin val) (Fin val))) (Fin 0) a"

text \<open>
  The length test comes first, so below it \<open>b[i]\<close> is always inside \<open>b\<close> and the indexed
  reduce runs over the pairs of \<open>zip a b\<close>. \<open>magnitudeA === 0\<close> is false of \<open>NaN\<close> and of
  \<open>Infinity\<close>.
\<close>

definition cosineSimilarity :: "real list \<Rightarrow> real list \<Rightarrow> jsnum" where
  "cosineSimilarity a b =
     (if length a \<noteq> length b then Fin 0
      else
        let dotProduct =
              foldl (\<lambda>sum (val, bi). jsAdd sum (jsMul (Fin val) (Fin bi))) (Fin 0) (zip a b);
            magnitudeA = jsSqrt (sumSquares a);
            magnitudeB = jsSqrt (sumSquares b)
        in if magnitudeA = Fin 0 \<or> magnitudeB = Fin 0 then Fin 0
           else jsDiv dotProduct (jsMul magnitudeA magnitudeB))"

section \<open>The corpus store\<close>

datatype doctype = Pdf | Docx | Txt

record Metadata =
  meta_source :: jsstring
  meta_page :: "nat option"
  meta_chunkIndex :: nat
  meta_type :: doctype

text \<open>
  \<open>DocumentChunk\<close>. \<open>chunk_similarity\<close> is the property that \<open>searchSimilarChunks\<close> adds to
  the objects of its semantic results; everywhere else it is absent.
\<close>

record DocumentChunk =
  chunk_id :: jsstring
  chunk_content :: jsstring
  chunk_metadata :: Metadata
  chunk_embedding :: "real list option"
  chunk_similarity :: "jsnum option"

text \<open>
  \<open>ProcessedDocument\<close>. \<open>doc_createdAt\<close> is \<open>new Date(createdAt).getTime()\<close>, the creation
  time in milliseconds; the date is taken to be a valid one.
\<close>

record ProcessedDocument =
  doc_id :: jsstring
  doc_name :: jsstring
  doc_type :: doctype
  doc_chunks :: "DocumentChunk list"
  doc_totalPages :: "nat option"
  doc_createdAt :: int

text \<open>The value kept in the embeddings store under a chunk id.\<close>

record EmbeddingRecord =
  rec_documentId :: jsstring
  rec_embedding :: "real list option"
  rec_content :: jsstring
  rec_metadata :: Metadata

text \<open>
  The calls made on the two localForage instances. Every call is recorded, so that the
  order of the calls of an operation can be read off the state.
\<close>

datatype storage_call =
    DocSetItem jsstring
  | DocGetItem jsstring
  | DocRemoveItem jsstring
  | DocClear
  | DocIterate
  | EmbSetItem jsstring
  | EmbRemoveItem jsstring
  | EmbClear
  | EmbIterate

text \<open>
  The two stores, each a list of key and value in iteration order (\<open>setItem\<close> replaces the
  value of a key in place and puts a new key at the end), and the calls made so far.
\<close>

record corpus =
  documentsDB :: "(jsstring \<times> ProcessedDocument) list"
  embeddingsDB :: "(jsstring \<times> EmbeddingRecord) list"
  calls :: "storage_call list"

text \<open>
  The surroundings of the store: the embedding provider, whether the code runs in a
  browser (outside one \<open>initializeDatabases\<close> throws), which storage calls reject (by
  their position in the sequence of all calls), and the search of the Fuse library, which
  returns the matching items best first.
\<close>

record env =
  embedder :: provider
  inBrowser :: bool
  storageFails :: "nat \<Rightarrow> bool"
  fuseSearch :: "DocumentChunk list \<Rightarrow> jsstring \<Rightarrow> DocumentChunk list"

datatype error =
    Failed_to_store_document
  | Failed_to_delete_document
  | Failed_to_clear_documents
  | Not_in_browser
  | Storage_error

text \<open>
  One storage call: it is recorded, and it succeeds unless the surroundings make the call
  at this position reject. A rejected call changes neither store.
\<close>

definition storageCall :: "env \<Rightarrow> storage_call \<Rightarrow> corpus \<Rightarrow> bool \<times> corpus" where
  "storageCall e c s = (\<not> storageFails e (length (calls s)), s\<lparr>calls := calls s @ [c]\<rparr>)"

subsection \<open>storeDocument\<close>

text \<open>The loop that stores one embedding record for each chunk.\<close>

fun storeEmbeddings :: "env \<Rightarrow> jsstring \<Rightarrow> DocumentChunk list \<Rightarrow> corpus \<Rightarrow> bool \<times> corpus" where
  "storeEmbeddings e documentId [] s = (True, s)"
| "storeEmbeddings e documentId (chunk # chunks) s =
     (case storageCall e (EmbSetItem (chunk_id chunk)) s of
        (False, s') \<Rightarrow> (False, s')
      | (True, s') \<Rightarrow>
          storeEmbeddings e documentId chunks
            (s'\<lparr>embeddingsDB :=
                  AList.update (chunk_id chunk)
                    \<lparr>rec_documentId = documentId,
                     rec_embedding = chunk_embedding chunk,
                     rec_content = chunk_content chunk,
                     rec_metadata = chunk_metadata chunk\<rparr>
                    (embeddingsDB s')\<rparr>))"

definition withEmbedding :: "env \<Rightarrow> DocumentChunk \<Rightarrow> DocumentChunk" where
  "withEmbedding e chunk =
     chunk\<lparr>chunk_embedding := Some (generateEmbedding (embedder e) (chunk_content chunk))\<rparr>"

definition storeDocument :: "env \<Rightarrow> ProcessedDocument \<Rightarrow> corpus \<Rightarrow> (error + unit) \<times> corpus" where
  "storeDocument e document s =
     (if \<not> inBrowser e then (Inl Failed_to_store_document, s)
      else
        let chunksWithEmbeddings = map (withEmbedding e) (doc_chunks document);
            documentWithEmbeddings = document\<lparr>doc_chunks := chunksWithEmbeddings\<rparr>
        in case storageCall e (DocSetItem (doc_id document)) s of
             (False, s1) \<Rightarrow> (Inl Failed_to_store_document, s1)
           | (True, s1) \<Rightarrow>
               (case storeEmbeddings e (doc_id document) chunksWithEmbeddings
                       (s1\<lparr>documentsDB :=
                             AList.update (doc_id document) documentWithEmbeddings
                               (documentsDB s1)\<rparr>) of
                  (False, s2) \<Rightarrow> (Inl Failed_to_store_document, s2)
                | (True, s2) \<Rightarrow> (Inr (), s2)))"

subsection \<open>getAllDocuments\<close>

text \<open>
  \<open>documents.sort((a, b) => b.createdAt - a.createdAt)\<close>: the sort of JavaScript is stable,
  as is \<open>sort_key\<close>; the key is negated for the descending order. The \<open>catch\<close> block
  returns the empty list.
\<close>

definition getAllDocuments :: "env \<Rightarrow> corpus \<Rightarrow> (error + ProcessedDocument list) \<times> corpus" where
  "getAllDocuments e s =
     (if \<not> inBrowser e then (Inr [], s)
      else (case storageCall e DocIterate s of
              (False, s') \<Rightarrow> (Inr [], s')
            | (True, s') \<Rightarrow>
                (Inr (sort_key (\<lambda>d. - doc_createdAt d) (map snd (documentsDB s'))), s')))"

subsection \<open>deleteDocument and clearAllDocuments\<close>

fun removeEmbeddings :: "env \<Rightarrow> DocumentChunk list \<Rightarrow> corpus \<Rightarrow> bool \<times> corpus" where
  "removeEmbeddings e [] s = (True, s)"
| "removeEmbeddings e (chunk # chunks) s =
     (case storageCall e (EmbRemoveItem (chunk_id chunk)) s of
        (False, s') \<Rightarrow> (False, s')
      | (True, s') \<Rightarrow>
          removeEmbeddings e chunks
            (s'\<lparr>embeddingsDB := AList.delete (chunk_id chunk) (embeddingsDB s')\<rparr>))"

definition deleteDocument :: "env \<Rightarrow> jsstring \<Rightarrow> corpus \<Rightarrow> (error + unit) \<times> corpus" where
  "deleteDocument e documentId s =
     (if \<not> inBrowser e then (Inl Failed_to_delete_document, s)
      else (case storageCall e (DocGetItem documentId) s of
              (False, s1) \<Rightarrow> (Inl Failed_to_delete_document, s1)
            | (True, s1) \<Rightarrow>
                (case map_of (documentsDB s1) documentId of
                   None \<Rightarrow> (Inr (), s1)
                 | Some document \<Rightarrow>
                     (case removeEmbeddings e (doc_chunks document) s1 of
                        (False, s2) \<Rightarrow> (Inl Failed_to_delete_document, s2)
                      | (True, s2) \<Rightarrow>
                          (case storageCall e (DocRemoveItem documentId) s2 of
                             (False, s3) \<Rightarrow> (Inl Failed_to_delete_document, s3)
                           | (True, s3) \<Rightarrow>
                               (Inr (),
                                s3\<lparr>documentsDB :=
                                      AList.delete documentId (documentsDB s3)\<rparr>))))))"

definition clearAllDocuments :: "env \<Rightarrow> corpus \<Rightarrow> (error + unit) \<times> corpus" where
  "clearAllDocuments e s =
     (if \<not> inBrowser e then (Inl Failed_to_clear_documents, s)
      else (case storageCall e DocClear s of
              (False, s1) \<Rightarrow> (Inl Failed_to_clear_documents, s1)
            | (True, s1) \<Rightarrow>
                (case storageCall e EmbClear (s1\<lparr>documentsDB := []\<rparr>) of
                   (False, s2) \<Rightarrow> (Inl Failed_to_clear_documents, s2)
                 | (True, s2) \<Rightarrow> (Inr (), s2\<lparr>embeddingsDB := []\<rparr>))))"

section \<open>The similarity search\<close>

text \<open>
  \<open>xs.slice(0, topK)\<close> for an integer \<open>topK\<close>: a negative end counts from the end of the
  array.
\<close>

definition sliceTo :: "int \<Rightarrow> 'a list \<Rightarrow> 'a list" where
  "sliceTo topK xs =
     (if topK < 0 then take (nat (int (length xs) + topK)) xs else take (nat topK) xs)"

text \<open>
  The callback of the first iteration: a record with an embedding and a non-empty content
  whose similarity to the query lies strictly above the threshold is kept. The threshold is
  a finite double, given by its value.
\<close>

fun similarChunks :: "real list \<Rightarrow> real \<Rightarrow> (jsstring \<times> EmbeddingRecord) list
    \<Rightarrow> DocumentChunk list" where
  "similarChunks queryEmbedding threshold [] = []"
| "similarChunks queryEmbedding threshold ((chunkId, embeddingData) # rest) =
     (case rec_embedding embeddingData of
        None \<Rightarrow> similarChunks queryEmbedding threshold rest
      | Some embedding \<Rightarrow>
          if rec_content embeddingData = [] then similarChunks queryEmbedding threshold rest
          else
            let similarity = cosineSimilarity queryEmbedding embedding in
            if jsGreater similarity (Fin threshold)
            then \<lparr>chunk_id = chunkId,
                  chunk_content = rec_content embeddingData,
                  chunk_metadata = rec_metadata embeddingData,
                  chunk_embedding = Some embedding,
                  chunk_similarity = Some similarity\<rparr>
                 # similarChunks queryEmbedding threshold rest
            else similarChunks queryEmbedding threshold rest)"

text \<open>The callback of the fallback's iteration: every record with a non-empty content.\<close>

fun textChunks :: "(jsstring \<times> EmbeddingRecord) list \<Rightarrow> DocumentChunk list" where
  "textChunks [] = []"
| "textChunks ((chunkId, embeddingData) # rest) =
     (if rec_content embeddingData = [] then textChunks rest
      else \<lparr>chunk_id = chunkId,
            chunk_content = rec_content embeddingData,
            chunk_metadata = rec_metadata embeddingData,
            chunk_embedding = None,
            chunk_similarity = None\<rparr>
           # textChunks rest)"

text \<open>
  \<open>fallbackTextSearch\<close> has no \<open>try\<close> block: a failure of the store is thrown on to the
  caller.
\<close>

definition fallbackTextSearch :: "env \<Rightarrow> jsstring \<Rightarrow> int \<Rightarrow> corpus
    \<Rightarrow> (error + DocumentChunk list) \<times> corpus" where
  "fallbackTextSearch e query topK s =
     (if \<not> inBrowser e then (Inl Not_in_browser, s)
      else (case storageCall e EmbIterate s of
              (False, s') \<Rightarrow> (Inl Storage_error, s')
            | (True, s') \<Rightarrow>
                (Inr (sliceTo topK (fuseSearch e (textChunks (embeddingsDB s')) query)), s')))"

text \<open>
  \<open>chunk.similarity\<close> as a number: a missing property is \<open>undefined\<close>, which arithmetic
  reads as \<open>NaN\<close>.
\<close>

definition similarityOf :: "DocumentChunk \<Rightarrow> jsnum" where
  "similarityOf chunk = (case chunk_similarity chunk of Some x \<Rightarrow> x | None \<Rightarrow> NaN)"

text \<open>
  \<open>allChunks.sort((a, b) => b.similarity - a.similarity)\<close>. The difference is positive
  exactly when \<open>b.similarity > a.similarity\<close>: the difference of two different finite doubles
  is never rounded to zero, and \<open>Infinity - Infinity\<close> is \<open>NaN\<close>, which \<open>sort\<close> reads as 0.
  The similarities in \<open>allChunks\<close> lie above the threshold, so none of them is \<open>NaN\<close> or
  \<open>-Infinity\<close>, and the comparison is a consistent one. The sort of JavaScript is stable, as
  is \<open>sort_key\<close>; the key below puts \<open>Infinity\<close> first and the finite values in descending
  order behind it.
\<close>

fun descendingKey :: "jsnum \<Rightarrow> nat \<times> real" where
  "descendingKey PosInf = (0, 0)"
| "descendingKey (Fin x) = (1, - x)"
| "descendingKey NegInf = (2, 0)"
| "descendingKey NaN = (3, 0)"

text \<open>The semantic result list, thresholded, sorted and cut.\<close>

definition sortedChunks :: "env \<Rightarrow> jsstring \<Rightarrow> int \<Rightarrow> real \<Rightarrow> corpus \<Rightarrow> DocumentChunk list" where
  "sortedChunks e query topK threshold s =
     sliceTo topK
       (sort_key (\<lambda>chunk. descendingKey (similarityOf chunk))
          (similarChunks (generateEmbedding (embedder e) query) threshold (embeddingsDB s)))"

text \<open>
  The whole body of \<open>searchSimilarChunks\<close> is one \<open>try\<close> block, and its \<open>catch\<close> block
  calls \<open>fallbackTextSearch\<close>. An error of \<open>initializeDatabases\<close> or of the iteration is
  caught, and the fallback runs outside the \<open>try\<close>: its own error goes to the caller. The
  fallback for an empty result is \<open>return await fallbackTextSearch(...)\<close> inside the \<open>try\<close>:
  its error is caught as well, and the \<open>catch\<close> block runs the fallback a second time.
\<close>

definition searchSimilarChunks :: "env \<Rightarrow> jsstring \<Rightarrow> int \<Rightarrow> real \<Rightarrow> corpus
    \<Rightarrow> (error + DocumentChunk list) \<times> corpus" where
  "searchSimilarChunks e query topK threshold s =
     (if \<not> inBrowser e then fallbackTextSearch e query topK s
      else (case storageCall e EmbIterate s of
              (False, s') \<Rightarrow> fallbackTextSearch e query topK s'
            | (True, s') \<Rightarrow>
                if sortedChunks e query topK threshold s' = []
                then (case fallbackTextSearch e query topK s' of
                        (Inl error, s'') \<Rightarrow> fallbackTextSearch e query topK s''
                      | (Inr chunks, s'') \<Rightarrow> (Inr chunks, s''))
                else (Inr (sortedChunks e query topK threshold s'), s')))"

section \<open>Example inputs\<close>

text \<open>
  The lower-casing of the engine on a text of Basic Latin characters: the capital letters
  \<open>A\<close> to \<open>Z\<close> (code units 65 to 90) become \<open>a\<close> to \<open>z\<close>, every other code unit below 128
  stays. The example texts have no other characters.
\<close>

definition asciiToLowerCase :: "jsstring \<Rightarrow> jsstring" where
  "asciiToLowerCase text = map (\<lambda>c. if 65 \<le> c \<and> c \<le> 90 then c + 32 else c) text"

text \<open>
  A provider without an API key (every embedding is the local fallback vector), a browser
  whose storage never rejects a call, and a Fuse search that matches every item.
\<close>

definition offlineProvider :: provider where
  "offlineProvider =
     \<lparr>apiKey = False, fetchEmbedding = (\<lambda>text. NetworkError),
      toLowerCase = asciiToLowerCase\<rparr>"

definition healthyEnv :: env where
  "healthyEnv =
     \<lparr>embedder = offlineProvider, inBrowser = True, storageFails = (\<lambda>n. False),
      fuseSearch = (\<lambda>items query. items)\<rparr>"




text \<open>The same surroundings with a storage that rejects every call.\<close>

definition brokenEnv :: env where
  "brokenEnv = healthyEnv\<lparr>storageFails := (\<lambda>n. True)\<rparr>"


definition notesMetadata :: "nat \<Rightarrow> Metadata" where
  "notesMetadata i =
     \<lparr>meta_source = js ''notes.txt'', meta_page = None, meta_chunkIndex = i, meta_type = Txt\<rparr>"

definition chunkOne :: DocumentChunk where
  "chunkOne =
     \<lparr>chunk_id = js ''c1'', chunk_content = js ''The constitution of India.'',
      chunk_metadata = notesMetadata 0, chunk_embedding = None, chunk_similarity = None\<rparr>"

definition chunkTwo :: DocumentChunk where
  "chunkTwo =
     \<lparr>chunk_id = js ''c2'', chunk_content = js ''Fundamental rights and duties.'',
      chunk_metadata = notesMetadata 1, chunk_embedding = None, chunk_similarity = None\<rparr>"

definition notesDoc :: ProcessedDocument where
  "notesDoc =
     \<lparr>doc_id = js ''d1'', doc_name = js ''notes.txt'', doc_type = Txt,
      doc_chunks = [chunkOne, chunkTwo], doc_totalPages = None, doc_createdAt = 1700000000000\<rparr>"

definition emptyCorpus :: corpus where
  "emptyCorpus = \<lparr>documentsDB = [], embeddingsDB = [], calls = []\<rparr>"

text \<open>The corpus after \<open>notesDoc\<close> has been stored in the empty one.\<close>

definition notesCorpus :: corpus where
  "notesCorpus = snd (storeDocument healthyEnv notesDoc emptyCorpus)"


text \<open>
  A sentence of \<open>n + 1\<close> words, each the letter \<open>c\<close> nine times, with one space between
  them (\<open>10 * n + 9\<close> characters), and a text of two such sentences of 100 words, 999
  characters each, ended by a period each.
\<close>

fun sentenceOf :: "nat \<Rightarrow> nat \<Rightarrow> jsstring" where
  "sentenceOf c 0 = replicate 9 c"
| "sentenceOf c (Suc n) = replicate 9 c @ 32 # sentenceOf c n"

definition twoSentences :: jsstring where
  "twoSentences = sentenceOf 97 99 @ 46 # sentenceOf 98 99 @ [46]"

section \<open>Properties of the embedding provider\<close>

lemma length_addWords: "length (addWords vector words) = length vector"
  by (induction words arbitrary: vector) (auto simp: Let_def)

lemma length_addChars: "length (addChars vector str) = length vector"
  by (induction str arbitrary: vector) (auto simp: Let_def)

lemma length_rawVector: "length (rawVector lc text) = 3072"
  by (simp add: rawVector_def Let_def length_addWords length_addChars EMBEDDING_DIMENSIONS_def)

lemma length_generateSimpleVector: "length (generateSimpleVector lc text) = 3072"
  by (simp add: generateSimpleVector_def Let_def length_rawVector)

lemma validEmbedding_length: "validEmbedding data = Some v \<Longrightarrow> length v = 3072"
  by (auto simp: validEmbedding_def EMBEDDING_DIMENSIONS_def
      split: option.splits if_splits json.splits)

text \<open>
  Claim C1. For every text and every behaviour of the remote service, \<open>generateEmbedding\<close>
  returns a vector of exactly 3072 entries: the array of the service when it passed the
  checks, the fallback vector of \<open>generateSimpleVector\<close> otherwise. The function has no
  failing outcome, since every error inside it ends in the fallback.
\<close>

theorem generateEmbedding_length: "length (generateEmbedding p text) = 3072"
  by (auto simp: generateEmbedding_def length_generateSimpleVector validEmbedding_length
      split: response.splits option.splits)

section \<open>Sums of squares of real numbers\<close>




section \<open>Properties of the cosine similarity\<close>





















section \<open>Properties of the chunker\<close>

text \<open>
  Claim C8. Every chunk that \<open>chunkText\<close> returns has more than 10 characters after
  trimming: the last step of the function filters the shorter ones out.
\<close>

theorem chunkText_min_trimmed_length:
  "c \<in> set (chunkText text maxChunkSize overlap) \<Longrightarrow> 10 < length (trim c)"
  by (auto simp: chunkText_def Let_def split: prod.splits if_splits)

theorem chunkText_min_trimmed_length_witness:
  "js ''Short. A sentence of some length.''
     \<in> set (chunkText (js ''Short. A sentence of some length'') 1000 100)
   \<and> 10 < length (trim (js ''Short. A sentence of some length.''))"
proof -
  have h: "js ''Short. A sentence of some length.''
      \<in> set (chunkText (js ''Short. A sentence of some length'') 1000 100)"
    by (simp add: chunkText_def js_def splitRegex_def isSentenceEnd_def trim_def
        isWhiteSpace_def sliceLast_def)
  from chunkText_min_trimmed_length [OF h] h show ?thesis by blast
qed

section \<open>Properties of the corpus store\<close>

lemma notesCorpus_eq:
  "notesCorpus =
     \<lparr>documentsDB =
        [(js ''d1'', notesDoc\<lparr>doc_chunks := map (withEmbedding healthyEnv) [chunkOne, chunkTwo]\<rparr>)],
      embeddingsDB =
        [(js ''c1'',
          \<lparr>rec_documentId = js ''d1'',
           rec_embedding =
             Some (generateEmbedding offlineProvider (js ''The constitution of India.'')),
           rec_content = js ''The constitution of India.'',
           rec_metadata = notesMetadata 0\<rparr>),
         (js ''c2'',
          \<lparr>rec_documentId = js ''d1'',
           rec_embedding =
             Some (generateEmbedding offlineProvider (js ''Fundamental rights and duties.'')),
           rec_content = js ''Fundamental rights and duties.'',
           rec_metadata = notesMetadata 1\<rparr>)],
      calls = [DocSetItem (js ''d1''), EmbSetItem (js ''c1''), EmbSetItem (js ''c2'')]\<rparr>"
  by (simp add: notesCorpus_def storeDocument_def healthyEnv_def storageCall_def emptyCorpus_def
      notesDoc_def chunkOne_def chunkTwo_def withEmbedding_def js_def)

text \<open>
  Claim C9. When the storage works and the document store has no document under the given
  id, \<open>deleteDocument\<close> returns normally, and the only change of the state is the record of
  its one \<open>getItem\<close> call: the document store and the embedding store are as before.
\<close>

theorem deleteDocument_absent:
  assumes "inBrowser e" and "\<not> storageFails e (length (calls s))"
    and "map_of (documentsDB s) documentId = None"
  shows "deleteDocument e documentId s
    = (Inr (), s\<lparr>calls := calls s @ [DocGetItem documentId]\<rparr>)"
  using assms by (simp add: deleteDocument_def storageCall_def)

theorem deleteDocument_absent_witness:
  "inBrowser healthyEnv \<and> \<not> storageFails healthyEnv (length (calls notesCorpus))
   \<and> map_of (documentsDB notesCorpus) (js ''d2'') = None
   \<and> deleteDocument healthyEnv (js ''d2'') notesCorpus
       = (Inr (), notesCorpus\<lparr>calls := calls notesCorpus @ [DocGetItem (js ''d2'')]\<rparr>)"
proof -
  have a: "inBrowser healthyEnv"
    by (simp add: healthyEnv_def)
  have b: "\<not> storageFails healthyEnv (length (calls notesCorpus))"
    by (simp add: healthyEnv_def)
  have c: "map_of (documentsDB notesCorpus) (js ''d2'') = None"
    by (simp add: notesCorpus_eq js_def)
  from deleteDocument_absent [OF a b c] a b c show ?thesis by blast
qed

section \<open>Properties of the fallback vector\<close>


lemma nonneg_update:
  "\<forall>x\<in>set (v::real list). 0 \<le> x \<Longrightarrow> i < length v \<Longrightarrow> 0 \<le> d
    \<Longrightarrow> \<forall>x\<in>set (v[i := v ! i + d]). 0 \<le> x"
  by (auto simp: set_conv_nth nth_list_update)



lemma addWords_nonneg:
  "length v = 3072 \<Longrightarrow> \<forall>x\<in>set v. 0 \<le> x \<Longrightarrow> \<forall>x\<in>set (addWords v ws). 0 \<le> x"
proof (induction ws arbitrary: v)
  case Nil then show ?case by simp
next
  case (Cons w ws)
  let ?i = "simpleHash w mod EMBEDDING_DIMENSIONS"
  have i: "?i < length v" using Cons.prems(1) by (simp add: EMBEDDING_DIMENSIONS_def)
  have "\<forall>x\<in>set (v[?i := v ! ?i + 1]). 0 \<le> x"
    using nonneg_update [OF Cons.prems(2) i, of 1] by simp
  then show ?case using Cons.IH [of "v[?i := v ! ?i + 1]"] Cons.prems(1) by (simp add: Let_def)
qed

lemma addChars_nonneg:
  "length v = 3072 \<Longrightarrow> \<forall>x\<in>set v. 0 \<le> x \<Longrightarrow> \<forall>x\<in>set (addChars v cs). 0 \<le> x"
proof (induction cs arbitrary: v)
  case Nil then show ?case by simp
next
  case (Cons c cs)
  let ?i = "(c * 17) mod EMBEDDING_DIMENSIONS"
  have i: "?i < length v" using Cons.prems(1) by (simp add: EMBEDDING_DIMENSIONS_def)
  have "\<forall>x\<in>set (v[?i := v ! ?i + 1 / 10]). 0 \<le> x"
    using nonneg_update [OF Cons.prems(2) i, of "1 / 10"] by simp
  then show ?case using Cons.IH [of "v[?i := v ! ?i + 1 / 10]"] Cons.prems(1) by (simp add: Let_def)
qed












section \<open>Deleting and clearing\<close>

lemma removeEmbeddings_healthy:
  assumes "\<forall>n. \<not> storageFails e n"
  shows "removeEmbeddings e cs s =
    (True, s\<lparr>embeddingsDB := fold (\<lambda>c. AList.delete (chunk_id c)) cs (embeddingsDB s),
              calls := calls s @ map (\<lambda>c. EmbRemoveItem (chunk_id c)) cs\<rparr>)"
  using assms by (induction cs arbitrary: s) (simp_all add: storageCall_def)

lemma keys_delete: "fst ` set (AList.delete k al) = fst ` set al - {k}"
  by (induction al) auto

lemma set_delete_subset: "set (AList.delete k al) \<subseteq> set al"
  by (induction al) auto

lemma keys_fold_delete:
  "fst ` set (fold (\<lambda>c. AList.delete (chunk_id c)) cs al) = fst ` set al - chunk_id ` set cs"
  by (induction cs arbitrary: al) (auto simp: keys_delete)

lemma set_fold_delete_subset:
  "set (fold (\<lambda>c. AList.delete (chunk_id c)) cs al) \<subseteq> set al"
proof (induction cs arbitrary: al)
  case Nil
  show ?case by simp
next
  case (Cons c cs)
  have "set (fold (\<lambda>c. AList.delete (chunk_id c)) cs (AList.delete (chunk_id c) al))
      \<subseteq> set (AList.delete (chunk_id c) al)"
    by (rule Cons.IH)
  also have "\<dots> \<subseteq> set al" by (rule set_delete_subset)
  finally show ?case by simp
qed

lemma similarChunks_id:
  "c \<in> set (similarChunks q th db) \<Longrightarrow> chunk_id c \<in> fst ` set db"
  by (induction db) (force simp: Let_def split: option.splits if_splits)+

lemma similarChunks_ids: "chunk_id ` set (similarChunks q th db) \<subseteq> fst ` set db"
  using similarChunks_id by blast

lemma textChunks_id: "c \<in> set (textChunks db) \<Longrightarrow> chunk_id c \<in> fst ` set db"
  by (induction db) (force split: if_splits)+

lemma textChunks_ids: "chunk_id ` set (textChunks db) \<subseteq> fst ` set db"
  using textChunks_id by blast

lemma set_sliceTo: "set (sliceTo k xs) \<subseteq> set xs"
  by (auto simp: sliceTo_def dest: in_set_takeD)

lemma fallbackTextSearch_ids:
  assumes "\<forall>items q. set (fuseSearch e items q) \<subseteq> set items"
    and "fallbackTextSearch e query topK s = (Inr rs, s')"
  shows "chunk_id ` set rs \<subseteq> fst ` set (embeddingsDB s)"
proof -
  from assms(2) have rs: "rs = sliceTo topK (fuseSearch e (textChunks (embeddingsDB s)) query)"
    by (auto simp: fallbackTextSearch_def storageCall_def split: if_splits bool.splits)
  have "set rs \<subseteq> set (fuseSearch e (textChunks (embeddingsDB s)) query)"
    unfolding rs by (rule set_sliceTo)
  also have "\<dots> \<subseteq> set (textChunks (embeddingsDB s))"
    using assms(1) by simp
  finally have "chunk_id ` set rs \<subseteq> chunk_id ` set (textChunks (embeddingsDB s))"
    by (rule image_mono)
  also have "\<dots> \<subseteq> fst ` set (embeddingsDB s)"
    by (rule textChunks_ids)
  finally show ?thesis .
qed

lemma sortedChunks_ids: "chunk_id ` set (sortedChunks e query topK th s) \<subseteq> fst ` set (embeddingsDB s)"
proof -
  let ?sim = "similarChunks (generateEmbedding (embedder e) query) th (embeddingsDB s)"
  have "set (sortedChunks e query topK th s)
      \<subseteq> set (sort_key (\<lambda>chunk. descendingKey (similarityOf chunk)) ?sim)"
    unfolding sortedChunks_def by (rule set_sliceTo)
  then have "set (sortedChunks e query topK th s) \<subseteq> set ?sim"
    by simp
  then have "chunk_id ` set (sortedChunks e query topK th s) \<subseteq> chunk_id ` set ?sim"
    by (rule image_mono)
  also have "\<dots> \<subseteq> fst ` set (embeddingsDB s)"
    by (rule similarChunks_ids)
  finally show ?thesis .
qed

lemma fallbackTextSearch_embeddingsDB:
  "embeddingsDB (snd (fallbackTextSearch e query topK s)) = embeddingsDB s"
  by (simp add: fallbackTextSearch_def storageCall_def split: bool.splits)

lemma searchSimilarChunks_ids:
  assumes "\<forall>items q. set (fuseSearch e items q) \<subseteq> set items"
    and "searchSimilarChunks e query topK th s = (Inr rs, s')"
  shows "chunk_id ` set rs \<subseteq> fst ` set (embeddingsDB s)"
proof -
  let ?s1 = "s\<lparr>calls := calls s @ [EmbIterate]\<rparr>"
  let ?s2 = "snd (fallbackTextSearch e query topK ?s1)"
  have again: "embeddingsDB ?s2 = embeddingsDB s"
    by (simp add: fallbackTextSearch_embeddingsDB)
  have split: "fallbackTextSearch e query topK ?s1 = (fst (fallbackTextSearch e query topK ?s1), ?s2)"
    by simp
  consider (fb) s0 where "fallbackTextSearch e query topK s0 = (Inr rs, s')"
      "embeddingsDB s0 = embeddingsDB s"
    | (sem) "rs = sortedChunks e query topK th ?s1"
  proof (cases "inBrowser e \<and> \<not> storageFails e (length (calls s))
      \<and> sortedChunks e query topK th ?s1 = []")
    case False
    with assms(2) that show ?thesis
      by (auto simp: searchSimilarChunks_def storageCall_def split: if_splits bool.splits)
  next
    case True
    show ?thesis
    proof (cases "fst (fallbackTextSearch e query topK ?s1)")
      case (Inl err)
      with True assms(2) split have "fallbackTextSearch e query topK ?s2 = (Inr rs, s')"
        by (simp add: searchSimilarChunks_def storageCall_def split: prod.splits sum.splits)
      with again that(1) show ?thesis by blast
    next
      case (Inr chunks)
      with True assms(2) split have "fallbackTextSearch e query topK ?s1 = (Inr rs, s')"
        by (simp add: searchSimilarChunks_def storageCall_def split: prod.splits sum.splits)
      with that(1) [of ?s1] show ?thesis by simp
    qed
  qed
  then show ?thesis
  proof cases
    case fb
    then show ?thesis using fallbackTextSearch_ids [OF assms(1) fb(1)] by simp
  next
    case sem
    then show ?thesis using sortedChunks_ids [of e query topK th ?s1] by simp
  qed
qed

text \<open>
  Claim C2. Let the storage work and let the document store hold \<open>doc\<close> under the id \<open>d\<close>.
  Then \<open>deleteDocument\<close> returns normally; its storage calls are the lookup of \<open>d\<close>, then
  one removal from the embedding store for every chunk of \<open>doc\<close>, in order, and only then the
  removal of \<open>d\<close> from the document store. Afterwards the document store has nothing under
  \<open>d\<close>, the embedding store has no key that is a chunk id of \<open>doc\<close>, and no result of a later
  search is one of these chunks (Fuse returning items of its collection only). When every
  embedding record of document \<open>d\<close> was keyed by a chunk id of \<open>doc\<close>, no record of document
  \<open>d\<close> is left. \<open>clearAllDocuments\<close> leaves both stores empty.
\<close>

theorem deleteDocument_removes_embeddings_first:
  assumes "inBrowser e" and "\<forall>n. \<not> storageFails e n"
    and "map_of (documentsDB s) d = Some doc"
  shows "(\<exists>s'. deleteDocument e d s = (Inr (), s')
      \<and> calls s' = calls s @ [DocGetItem d]
            @ map (\<lambda>c. EmbRemoveItem (chunk_id c)) (doc_chunks doc) @ [DocRemoveItem d]
      \<and> map_of (documentsDB s') d = None
      \<and> (\<forall>c\<in>set (doc_chunks doc). chunk_id c \<notin> fst ` set (embeddingsDB s'))
      \<and> (\<forall>query topK threshold rs s''.
            (\<forall>items q. set (fuseSearch e items q) \<subseteq> set items)
            \<longrightarrow> searchSimilarChunks e query topK threshold s' = (Inr rs, s'')
            \<longrightarrow> (\<forall>r\<in>set rs. chunk_id r \<notin> chunk_id ` set (doc_chunks doc)))
      \<and> ((\<forall>(k, r)\<in>set (embeddingsDB s).
              rec_documentId r = d \<longrightarrow> k \<in> chunk_id ` set (doc_chunks doc))
           \<longrightarrow> (\<forall>(k, r)\<in>set (embeddingsDB s'). rec_documentId r \<noteq> d)))
    \<and> (\<exists>s'. clearAllDocuments e s = (Inr (), s') \<and> documentsDB s' = [] \<and> embeddingsDB s' = [])"
proof (rule conjI)
  let ?cs = "doc_chunks doc"
  let ?emb = "fold (\<lambda>c. AList.delete (chunk_id c)) ?cs (embeddingsDB s)"
  let ?s' = "s\<lparr>documentsDB := AList.delete d (documentsDB s), embeddingsDB := ?emb,
      calls := calls s @ [DocGetItem d] @ map (\<lambda>c. EmbRemoveItem (chunk_id c)) ?cs @ [DocRemoveItem d]\<rparr>"
  have run: "deleteDocument e d s = (Inr (), ?s')"
    using assms by (simp add: deleteDocument_def storageCall_def removeEmbeddings_healthy)
  have keys: "fst ` set ?emb = fst ` set (embeddingsDB s) - chunk_id ` set ?cs"
    by (rule keys_fold_delete)
  have gone: "\<forall>c\<in>set ?cs. chunk_id c \<notin> fst ` set (embeddingsDB ?s')"
    using keys by auto
  have search: "\<forall>r\<in>set rs. chunk_id r \<notin> chunk_id ` set ?cs"
    if "\<forall>items q. set (fuseSearch e items q) \<subseteq> set items"
      and "searchSimilarChunks e query topK threshold ?s' = (Inr rs, s'')"
    for query topK threshold rs s''
    using searchSimilarChunks_ids [OF that] keys by auto
  have orphans: "\<forall>(k, r)\<in>set (embeddingsDB ?s'). rec_documentId r \<noteq> d"
    if inv: "\<forall>(k, r)\<in>set (embeddingsDB s). rec_documentId r = d \<longrightarrow> k \<in> chunk_id ` set ?cs"
  proof -
    { fix k r assume kr: "(k, r) \<in> set ?emb"
      then have "(k, r) \<in> set (embeddingsDB s)" using set_fold_delete_subset by blast
      moreover have "k \<in> fst ` set ?emb"
        using kr by force
      then have "k \<notin> chunk_id ` set ?cs"
        unfolding keys by simp
      moreover note this
      ultimately have "rec_documentId r \<noteq> d" using inv by auto }
    then show ?thesis by auto
  qed
  have doc_gone: "map_of (documentsDB ?s') d = None"
    by (simp add: AList.delete_conv')
  show "\<exists>s'. deleteDocument e d s = (Inr (), s')
      \<and> calls s' = calls s @ [DocGetItem d]
            @ map (\<lambda>c. EmbRemoveItem (chunk_id c)) (doc_chunks doc) @ [DocRemoveItem d]
      \<and> map_of (documentsDB s') d = None
      \<and> (\<forall>c\<in>set (doc_chunks doc). chunk_id c \<notin> fst ` set (embeddingsDB s'))
      \<and> (\<forall>query topK threshold rs s''.
            (\<forall>items q. set (fuseSearch e items q) \<subseteq> set items)
            \<longrightarrow> searchSimilarChunks e query topK threshold s' = (Inr rs, s'')
            \<longrightarrow> (\<forall>r\<in>set rs. chunk_id r \<notin> chunk_id ` set (doc_chunks doc)))
      \<and> ((\<forall>(k, r)\<in>set (embeddingsDB s).
              rec_documentId r = d \<longrightarrow> k \<in> chunk_id ` set (doc_chunks doc))
           \<longrightarrow> (\<forall>(k, r)\<in>set (embeddingsDB s'). rec_documentId r \<noteq> d))"
  proof (intro exI conjI)
    show "deleteDocument e d s = (Inr (), ?s')" by (rule run)
    show "calls ?s' = calls s @ [DocGetItem d]
            @ map (\<lambda>c. EmbRemoveItem (chunk_id c)) (doc_chunks doc) @ [DocRemoveItem d]" by simp
    show "map_of (documentsDB ?s') d = None" by (rule doc_gone)
    show "\<forall>c\<in>set ?cs. chunk_id c \<notin> fst ` set (embeddingsDB ?s')" by (rule gone)
    show "\<forall>query topK threshold rs s''.
            (\<forall>items q. set (fuseSearch e items q) \<subseteq> set items)
            \<longrightarrow> searchSimilarChunks e query topK threshold ?s' = (Inr rs, s'')
            \<longrightarrow> (\<forall>r\<in>set rs. chunk_id r \<notin> chunk_id ` set (doc_chunks doc))"
      using search by blast
    show "(\<forall>(k, r)\<in>set (embeddingsDB s).
              rec_documentId r = d \<longrightarrow> k \<in> chunk_id ` set (doc_chunks doc))
           \<longrightarrow> (\<forall>(k, r)\<in>set (embeddingsDB ?s'). rec_documentId r \<noteq> d)"
      using orphans by blast
  qed
next
  show "\<exists>s'. clearAllDocuments e s = (Inr (), s') \<and> documentsDB s' = [] \<and> embeddingsDB s' = []"
    using assms by (simp add: clearAllDocuments_def storageCall_def)
qed

theorem deleteDocument_removes_embeddings_first_witness:
  "inBrowser healthyEnv \<and> (\<forall>n. \<not> storageFails healthyEnv n)
   \<and> map_of (documentsDB notesCorpus) (js ''d1'')
       = Some (notesDoc\<lparr>doc_chunks := map (withEmbedding healthyEnv) [chunkOne, chunkTwo]\<rparr>)
   \<and> (\<exists>s'. deleteDocument healthyEnv (js ''d1'') notesCorpus = (Inr (), s')
         \<and> calls s' = calls notesCorpus
              @ [DocGetItem (js ''d1''), EmbRemoveItem (js ''c1''), EmbRemoveItem (js ''c2''),
                 DocRemoveItem (js ''d1'')]
         \<and> map_of (documentsDB s') (js ''d1'') = None)
   \<and> (\<exists>s'. clearAllDocuments healthyEnv notesCorpus = (Inr (), s')
         \<and> documentsDB s' = [] \<and> embeddingsDB s' = [])"
proof -
  let ?doc = "notesDoc\<lparr>doc_chunks := map (withEmbedding healthyEnv) [chunkOne, chunkTwo]\<rparr>"
  have a: "inBrowser healthyEnv"
    by (simp add: healthyEnv_def)
  have b: "\<forall>n. \<not> storageFails healthyEnv n"
    by (simp add: healthyEnv_def)
  have c: "map_of (documentsDB notesCorpus) (js ''d1'') = Some ?doc"
    by (simp add: notesCorpus_eq)
  have ids: "map (\<lambda>c. EmbRemoveItem (chunk_id c)) (doc_chunks ?doc)
      = [EmbRemoveItem (js ''c1''), EmbRemoveItem (js ''c2'')]"
    by (simp add: withEmbedding_def chunkOne_def chunkTwo_def)
  from deleteDocument_removes_embeddings_first [OF a b c] a b c show ?thesis
    unfolding ids by auto
qed

section \<open>Storing and listing\<close>

lemma storeEmbeddings_healthy:
  assumes "\<forall>n. \<not> storageFails e n"
  shows "fst (storeEmbeddings e documentId cs s)
    \<and> documentsDB (snd (storeEmbeddings e documentId cs s)) = documentsDB s"
  using assms by (induction cs arbitrary: s) (simp_all add: storageCall_def)

lemma update_member: "(k, v) \<in> set (AList.update k v al)"
  by (induction al) auto

lemma sorted_descending:
  "sorted_wrt (\<lambda>a b. doc_createdAt b \<le> doc_createdAt a) (sort_key (\<lambda>d. - doc_createdAt d) ds)"
proof -
  have "sorted (map (\<lambda>d. - doc_createdAt d) (sort_key (\<lambda>d. - doc_createdAt d) ds))"
    by (rule sorted_sort_key)
  then show ?thesis by (simp add: sorted_map)
qed

text \<open>
  Claim C6. With a working storage, \<open>storeDocument\<close> followed by \<open>getAllDocuments\<close> lists a
  document with the id, the name and the number of chunks of the stored one, whose chunks
  have the same ids and contents in the same order. The listing holds every document of
  the store, the most recently created first.
\<close>

theorem storeDocument_getAllDocuments_roundtrip:
  assumes "inBrowser e" and "\<forall>n. \<not> storageFails e n"
  shows "\<exists>s1 s2 ds. storeDocument e doc s = (Inr (), s1)
    \<and> getAllDocuments e s1 = (Inr ds, s2)
    \<and> (\<exists>d'\<in>set ds. doc_id d' = doc_id doc \<and> doc_name d' = doc_name doc
          \<and> length (doc_chunks d') = length (doc_chunks doc)
          \<and> map chunk_id (doc_chunks d') = map chunk_id (doc_chunks doc)
          \<and> map chunk_content (doc_chunks d') = map chunk_content (doc_chunks doc))
    \<and> sorted_wrt (\<lambda>a b. doc_createdAt b \<le> doc_createdAt a) ds
    \<and> set ds = snd ` set (documentsDB s1) \<and> length ds = length (documentsDB s1)"
proof -
  let ?stored = "doc\<lparr>doc_chunks := map (withEmbedding e) (doc_chunks doc)\<rparr>"
  let ?s0 = "s\<lparr>calls := calls s @ [DocSetItem (doc_id doc)],
      documentsDB := AList.update (doc_id doc) ?stored (documentsDB s)\<rparr>"
  obtain s1 where
    emb: "storeEmbeddings e (doc_id doc) (map (withEmbedding e) (doc_chunks doc)) ?s0
      = (True, s1)"
    and docs: "documentsDB s1 = documentsDB ?s0"
    using storeEmbeddings_healthy [OF assms(2), of "doc_id doc" _ ?s0]
    by (metis (full_types) prod.collapse)
  have store: "storeDocument e doc s = (Inr (), s1)"
    using assms emb by (simp add: storeDocument_def storageCall_def Let_def)
  let ?ds = "sort_key (\<lambda>d. - doc_createdAt d) (map snd (documentsDB s1))"
  let ?s2 = "s1\<lparr>calls := calls s1 @ [DocIterate]\<rparr>"
  have list: "getAllDocuments e s1 = (Inr ?ds, ?s2)"
    using assms by (simp add: getAllDocuments_def storageCall_def)
  have "(doc_id doc, ?stored) \<in> set (documentsDB s1)"
    unfolding docs using update_member [of "doc_id doc" ?stored "documentsDB s"] by simp
  then have mem: "?stored \<in> set ?ds"
    by force
  have fields: "doc_id ?stored = doc_id doc \<and> doc_name ?stored = doc_name doc
          \<and> length (doc_chunks ?stored) = length (doc_chunks doc)
          \<and> map chunk_id (doc_chunks ?stored) = map chunk_id (doc_chunks doc)
          \<and> map chunk_content (doc_chunks ?stored) = map chunk_content (doc_chunks doc)"
    by (simp add: withEmbedding_def comp_def)
  have all: "set ?ds = snd ` set (documentsDB s1) \<and> length ?ds = length (documentsDB s1)"
    by simp
  from store list mem fields all sorted_descending [of "map snd (documentsDB s1)"]
  show ?thesis by blast
qed

theorem storeDocument_getAllDocuments_roundtrip_witness:
  "inBrowser healthyEnv \<and> (\<forall>n. \<not> storageFails healthyEnv n)
   \<and> (\<exists>s1 s2 ds. storeDocument healthyEnv notesDoc emptyCorpus = (Inr (), s1)
        \<and> getAllDocuments healthyEnv s1 = (Inr ds, s2)
        \<and> (\<exists>d'\<in>set ds. doc_id d' = js ''d1'' \<and> doc_name d' = js ''notes.txt''
              \<and> length (doc_chunks d') = 2
              \<and> map chunk_id (doc_chunks d') = [js ''c1'', js ''c2''])
        \<and> sorted_wrt (\<lambda>a b. doc_createdAt b \<le> doc_createdAt a) ds)"
proof -
  have a: "inBrowser healthyEnv"
    by (simp add: healthyEnv_def)
  have b: "\<forall>n. \<not> storageFails healthyEnv n"
    by (simp add: healthyEnv_def)
  have c: "doc_id notesDoc = js ''d1'' \<and> doc_name notesDoc = js ''notes.txt''
      \<and> length (doc_chunks notesDoc) = 2
      \<and> map chunk_id (doc_chunks notesDoc) = [js ''c1'', js ''c2'']"
    by (simp add: notesDoc_def chunkOne_def chunkTwo_def)
  from storeDocument_getAllDocuments_roundtrip [OF a b, of notesDoc emptyCorpus]
  obtain s1 s2 ds where
    "storeDocument healthyEnv notesDoc emptyCorpus = (Inr (), s1)"
    "getAllDocuments healthyEnv s1 = (Inr ds, s2)"
    "\<exists>d'\<in>set ds. doc_id d' = doc_id notesDoc \<and> doc_name d' = doc_name notesDoc
          \<and> length (doc_chunks d') = length (doc_chunks notesDoc)
          \<and> map chunk_id (doc_chunks d') = map chunk_id (doc_chunks notesDoc)
          \<and> map chunk_content (doc_chunks d') = map chunk_content (doc_chunks notesDoc)"
    "sorted_wrt (\<lambda>a b. doc_createdAt b \<le> doc_createdAt a) ds"
    by blast
  with a b c show ?thesis
    by (metis (no_types, lifting))
qed

section \<open>Failures of the storage\<close>

text \<open>
  The storage raises during an operation when the operation does not get its databases
  (\<open>initializeDatabases\<close> throws) or when one of the storage calls it makes is rejected.
\<close>

lemma storeEmbeddings_rejected:
  "storeEmbeddings e documentId cs s = (ok, s') \<Longrightarrow> length (calls s) \<le> n
    \<Longrightarrow> n < length (calls s') \<Longrightarrow> storageFails e n \<Longrightarrow> \<not> ok"
proof (induction cs arbitrary: s)
  case Nil
  then show ?case by simp
next
  case (Cons c cs)
  show ?case
  proof (cases "storageFails e (length (calls s))")
    case True
    with Cons.prems(1) show ?thesis by (simp add: storageCall_def)
  next
    case False
    let ?s1 = "s\<lparr>calls := calls s @ [EmbSetItem (chunk_id c)],
       embeddingsDB := AList.update (chunk_id c)
          \<lparr>rec_documentId = documentId, rec_embedding = chunk_embedding c,
           rec_content = chunk_content c, rec_metadata = chunk_metadata c\<rparr> (embeddingsDB s)\<rparr>"
    from False Cons.prems(1) have run: "storeEmbeddings e documentId cs ?s1 = (ok, s')"
      by (simp add: storageCall_def)
    from False Cons.prems(2,4) have "n \<noteq> length (calls s)" by auto
    with Cons.prems(2) have "length (calls ?s1) \<le> n" by simp
    from Cons.IH [OF run this Cons.prems(3,4)] show ?thesis .
  qed
qed

lemma removeEmbeddings_rejected:
  "removeEmbeddings e cs s = (ok, s') \<Longrightarrow> length (calls s) \<le> n
    \<Longrightarrow> n < length (calls s') \<Longrightarrow> storageFails e n \<Longrightarrow> \<not> ok"
proof (induction cs arbitrary: s)
  case Nil
  then show ?case by simp
next
  case (Cons c cs)
  show ?case
  proof (cases "storageFails e (length (calls s))")
    case True
    with Cons.prems(1) show ?thesis by (simp add: storageCall_def)
  next
    case False
    let ?s1 = "s\<lparr>calls := calls s @ [EmbRemoveItem (chunk_id c)],
       embeddingsDB := AList.delete (chunk_id c) (embeddingsDB s)\<rparr>"
    from False Cons.prems(1) have run: "removeEmbeddings e cs ?s1 = (ok, s')"
      by (simp add: storageCall_def)
    from False Cons.prems(2,4) have "n \<noteq> length (calls s)" by auto
    with Cons.prems(2) have "length (calls ?s1) \<le> n" by simp
    from Cons.IH [OF run this Cons.prems(3,4)] show ?thesis .
  qed
qed

lemma storeDocument_rejected:
  assumes "\<not> inBrowser e \<or> (\<exists>n. length (calls s) \<le> n
      \<and> n < length (calls (snd (storeDocument e doc s))) \<and> storageFails e n)"
  shows "fst (storeDocument e doc s) = Inl Failed_to_store_document"
proof (cases "inBrowser e \<and> \<not> storageFails e (length (calls s))")
  case False
  then show ?thesis by (auto simp: storeDocument_def storageCall_def Let_def)
next
  case True
  let ?cs = "map (withEmbedding e) (doc_chunks doc)"
  let ?s1 = "s\<lparr>calls := calls s @ [DocSetItem (doc_id doc)],
      documentsDB := AList.update (doc_id doc) (doc\<lparr>doc_chunks := ?cs\<rparr>) (documentsDB s)\<rparr>"
  obtain ok s2 where loop: "storeEmbeddings e (doc_id doc) ?cs ?s1 = (ok, s2)"
    by (cases "storeEmbeddings e (doc_id doc) ?cs ?s1") auto
  have res: "storeDocument e doc s
      = (if ok then Inr () else Inl Failed_to_store_document, s2)"
    using True loop by (simp add: storeDocument_def storageCall_def Let_def)
  from assms True obtain n where
    n: "length (calls s) \<le> n" "n < length (calls s2)" "storageFails e n"
    by (auto simp: res)
  with True have "n \<noteq> length (calls s)" by auto
  with n(1) have "length (calls ?s1) \<le> n" by simp
  from storeEmbeddings_rejected [OF loop this n(2,3)] show ?thesis
    by (simp add: res)
qed

lemma deleteDocument_rejected:
  assumes "\<not> inBrowser e \<or> (\<exists>n. length (calls s) \<le> n
      \<and> n < length (calls (snd (deleteDocument e d s))) \<and> storageFails e n)"
  shows "fst (deleteDocument e d s) = Inl Failed_to_delete_document"
proof (cases "inBrowser e \<and> \<not> storageFails e (length (calls s))")
  case False
  then show ?thesis by (auto simp: deleteDocument_def storageCall_def)
next
  case True
  let ?s1 = "s\<lparr>calls := calls s @ [DocGetItem d]\<rparr>"
  show ?thesis
  proof (cases "map_of (documentsDB s) d")
    case None
    with True have "deleteDocument e d s = (Inr (), ?s1)"
      by (simp add: deleteDocument_def storageCall_def)
    with assms True obtain n where
      n: "length (calls s) \<le> n" "n < Suc (length (calls s))" "storageFails e n"
      by auto
    then have "n = length (calls s)" by auto
    with n(3) True show ?thesis by auto
  next
    case (Some doc)
    obtain ok s2 where loop: "removeEmbeddings e (doc_chunks doc) ?s1 = (ok, s2)"
      by (cases "removeEmbeddings e (doc_chunks doc) ?s1") auto
    show ?thesis
    proof (cases "ok \<and> \<not> storageFails e (length (calls s2))")
      case False
      with True Some loop show ?thesis
        by (auto simp: deleteDocument_def storageCall_def split: bool.splits)
    next
      case ok: True
      with True Some loop have
        res: "calls (snd (deleteDocument e d s)) = calls s2 @ [DocRemoveItem d]"
        by (simp add: deleteDocument_def storageCall_def)
      from assms True obtain n where
        n: "length (calls s) \<le> n" "n < Suc (length (calls s2))" "storageFails e n"
        by (auto simp: res)
      with True ok have "n \<noteq> length (calls s)" "n \<noteq> length (calls s2)" by auto
      with n have "length (calls ?s1) \<le> n" "n < length (calls s2)" by simp_all
      from removeEmbeddings_rejected [OF loop this n(3)] ok show ?thesis by simp
    qed
  qed
qed

lemma clearAllDocuments_rejected:
  assumes "\<not> inBrowser e \<or> (\<exists>n. length (calls s) \<le> n
      \<and> n < length (calls (snd (clearAllDocuments e s))) \<and> storageFails e n)"
  shows "fst (clearAllDocuments e s) = Inl Failed_to_clear_documents"
proof (cases "inBrowser e \<and> \<not> storageFails e (length (calls s))
    \<and> \<not> storageFails e (Suc (length (calls s)))")
  case False
  then show ?thesis
    by (auto simp: clearAllDocuments_def storageCall_def split: bool.splits)
next
  case True
  then have "calls (snd (clearAllDocuments e s)) = calls s @ [DocClear, EmbClear]"
    by (simp add: clearAllDocuments_def storageCall_def)
  with assms True obtain n where
    n: "length (calls s) \<le> n" "n < Suc (Suc (length (calls s)))" "storageFails e n"
    by auto
  then have "n = length (calls s) \<or> n = Suc (length (calls s))" by auto
  with n(3) True show ?thesis by auto
qed

lemma getAllDocuments_rejected:
  assumes "\<not> inBrowser e \<or> (\<exists>n. length (calls s) \<le> n
      \<and> n < length (calls (snd (getAllDocuments e s))) \<and> storageFails e n)"
  shows "fst (getAllDocuments e s) = Inr []"
proof (cases "inBrowser e \<and> \<not> storageFails e (length (calls s))")
  case False
  then show ?thesis by (auto simp: getAllDocuments_def storageCall_def)
next
  case True
  then have "calls (snd (getAllDocuments e s)) = calls s @ [DocIterate]"
    by (simp add: getAllDocuments_def storageCall_def)
  with assms True obtain n where
    n: "length (calls s) \<le> n" "n < Suc (length (calls s))" "storageFails e n"
    by auto
  then have "n = length (calls s)" by auto
  with n(3) True show ?thesis by auto
qed

text \<open>
  Claim C7, as the code has it. When the storage raises during \<open>storeDocument\<close>,
  \<open>deleteDocument\<close> or \<open>clearAllDocuments\<close>, the operation fails with its own generic error.
  \<open>getAllDocuments\<close> does not: its \<open>catch\<close> block returns the empty list.
\<close>

theorem storage_failure_outcomes:
  "((\<not> inBrowser e \<or> (\<exists>n. length (calls s) \<le> n
        \<and> n < length (calls (snd (storeDocument e doc s))) \<and> storageFails e n))
      \<longrightarrow> fst (storeDocument e doc s) = Inl Failed_to_store_document)
   \<and> ((\<not> inBrowser e \<or> (\<exists>n. length (calls s) \<le> n
        \<and> n < length (calls (snd (deleteDocument e d s))) \<and> storageFails e n))
      \<longrightarrow> fst (deleteDocument e d s) = Inl Failed_to_delete_document)
   \<and> ((\<not> inBrowser e \<or> (\<exists>n. length (calls s) \<le> n
        \<and> n < length (calls (snd (clearAllDocuments e s))) \<and> storageFails e n))
      \<longrightarrow> fst (clearAllDocuments e s) = Inl Failed_to_clear_documents)
   \<and> ((\<not> inBrowser e \<or> (\<exists>n. length (calls s) \<le> n
        \<and> n < length (calls (snd (getAllDocuments e s))) \<and> storageFails e n))
      \<longrightarrow> fst (getAllDocuments e s) = Inr [])"
  using storeDocument_rejected [of e s doc] deleteDocument_rejected [of e s d]
    clearAllDocuments_rejected [of e s] getAllDocuments_rejected [of e s]
  by blast

theorem storage_failure_outcomes_witness:
  "storageFails brokenEnv (length (calls notesCorpus))
   \<and> fst (storeDocument brokenEnv notesDoc notesCorpus) = Inl Failed_to_store_document
   \<and> fst (deleteDocument brokenEnv (js ''d1'') notesCorpus) = Inl Failed_to_delete_document
   \<and> fst (clearAllDocuments brokenEnv notesCorpus) = Inl Failed_to_clear_documents
   \<and> fst (getAllDocuments brokenEnv notesCorpus) = Inr []"
proof -
  have f: "storageFails brokenEnv (length (calls notesCorpus))"
    by (simp add: brokenEnv_def healthyEnv_def)
  have b: "inBrowser brokenEnv"
    by (simp add: brokenEnv_def healthyEnv_def)
  have "length (calls (snd (storeDocument brokenEnv notesDoc notesCorpus)))
      = Suc (length (calls notesCorpus))"
    using f b by (simp add: storeDocument_def storageCall_def Let_def)
  with f have 1: "\<exists>n. length (calls notesCorpus) \<le> n
      \<and> n < length (calls (snd (storeDocument brokenEnv notesDoc notesCorpus)))
      \<and> storageFails brokenEnv n"
    by (intro exI [of _ "length (calls notesCorpus)"]) simp
  have "length (calls (snd (deleteDocument brokenEnv (js ''d1'') notesCorpus)))
      = Suc (length (calls notesCorpus))"
    using f b by (simp add: deleteDocument_def storageCall_def)
  with f have 2: "\<exists>n. length (calls notesCorpus) \<le> n
      \<and> n < length (calls (snd (deleteDocument brokenEnv (js ''d1'') notesCorpus)))
      \<and> storageFails brokenEnv n"
    by (intro exI [of _ "length (calls notesCorpus)"]) simp
  have "length (calls (snd (clearAllDocuments brokenEnv notesCorpus)))
      = Suc (length (calls notesCorpus))"
    using f b by (simp add: clearAllDocuments_def storageCall_def)
  with f have 3: "\<exists>n. length (calls notesCorpus) \<le> n
      \<and> n < length (calls (snd (clearAllDocuments brokenEnv notesCorpus)))
      \<and> storageFails brokenEnv n"
    by (intro exI [of _ "length (calls notesCorpus)"]) simp
  have "length (calls (snd (getAllDocuments brokenEnv notesCorpus)))
      = Suc (length (calls notesCorpus))"
    using f b by (simp add: getAllDocuments_def storageCall_def)
  with f have 4: "\<exists>n. length (calls notesCorpus) \<le> n
      \<and> n < length (calls (snd (getAllDocuments brokenEnv notesCorpus)))
      \<and> storageFails brokenEnv n"
    by (intro exI [of _ "length (calls notesCorpus)"]) simp
  from storage_failure_outcomes [of brokenEnv notesCorpus notesDoc "js ''d1''"] f 1 2 3 4
  show ?thesis by blast
qed

text \<open>
  Claim C7 as stated fails for \<open>getAllDocuments\<close>: on a store that holds a document and
  rejects the iteration, the operation returns the empty list as a normal result.
\<close>

theorem getAllDocuments_swallows_failure:
  "storageFails brokenEnv (length (calls notesCorpus))
   \<and> documentsDB notesCorpus \<noteq> []
   \<and> getAllDocuments brokenEnv notesCorpus
       = (Inr [], notesCorpus\<lparr>calls := calls notesCorpus @ [DocIterate]\<rparr>)"
  by (simp add: getAllDocuments_def storageCall_def brokenEnv_def healthyEnv_def notesCorpus_eq)

section \<open>Properties of the similarity search\<close>

lemma sortedChunks_calls [simp]:
  "sortedChunks e query topK threshold (s\<lparr>calls := cs\<rparr>)
     = sortedChunks e query topK threshold s"
  by (simp add: sortedChunks_def)


















section \<open>The size of the chunks\<close>

lemma splitRuns_plain: "\<forall>c\<in>set w. \<not> sep c \<Longrightarrow> splitRuns sep b w = [w]"
  by (induction w arbitrary: b) auto

lemma splitRuns_piece:
  "\<forall>c\<in>set w. \<not> sep c \<Longrightarrow> sep d
    \<Longrightarrow> splitRuns sep False (w @ d # rest) = w # splitRuns sep True rest"
  by (induction w) auto

lemma splitRuns_piece_inRun:
  "\<forall>c\<in>set w. \<not> sep c \<Longrightarrow> w \<noteq> [] \<Longrightarrow> sep d
    \<Longrightarrow> splitRuns sep True (w @ d # rest) = w # splitRuns sep True rest"
  by (cases w) (auto simp: splitRuns_piece)

lemma splitChar_plain: "d \<notin> set w \<Longrightarrow> splitChar d w = [w]"
  by (induction w) auto

lemma splitChar_piece: "d \<notin> set w \<Longrightarrow> splitChar d (w @ d # rest) = w # splitChar d rest"
  by (induction w) auto

lemma trim_unchanged:
  assumes "s \<noteq> []" and "\<not> isWhiteSpace (hd s)" and "\<not> isWhiteSpace (last s)"
  shows "trim s = s"
proof -
  from assms(1,2) have 1: "dropWhile isWhiteSpace s = s"
    by (cases s) auto
  from assms(1,3) have "\<not> isWhiteSpace (hd (rev s))"
    by (simp add: hd_rev)
  with assms(1) have 2: "dropWhile isWhiteSpace (rev s) = rev s"
    by (cases "rev s") auto
  show ?thesis by (simp add: trim_def 1 2)
qed

lemma length_sentenceOf: "length (sentenceOf c n) = 10 * n + 9"
  by (induction n) auto

lemma set_sentenceOf: "set (sentenceOf c n) \<subseteq> {c, 32}"
  by (induction n) auto

lemma sentenceOf_nonempty: "sentenceOf c n \<noteq> []"
  by (cases n) auto

lemma hd_sentenceOf: "hd (sentenceOf c n) = c"
  by (cases n) (auto simp: eval_nat_numeral)

lemma last_sentenceOf: "last (sentenceOf c n) = c"
  by (induction n) (auto simp: sentenceOf_nonempty)

lemma splitChar_sentenceOf:
  "c \<noteq> 32 \<Longrightarrow> splitChar 32 (sentenceOf c n) = replicate (Suc n) (replicate 9 c)"
  by (induction n) (auto simp: splitChar_plain splitChar_piece)

lemma length_joinWith_replicate:
  "length (joinWith d (replicate (Suc n) w)) = Suc n * length w + n"
  by (induction n) auto

lemma hd_joinWith: "w \<noteq> [] \<Longrightarrow> hd (joinWith d (w # ws)) = hd w"
  by (cases ws) auto

lemma joinWith_nonempty: "w \<noteq> [] \<Longrightarrow> joinWith d (w # ws) \<noteq> []"
  by (cases ws) auto

lemma sentenceOf_no_end:
  "c \<noteq> 46 \<Longrightarrow> c \<noteq> 33 \<Longrightarrow> c \<noteq> 63 \<Longrightarrow> \<forall>x\<in>set (sentenceOf c n). \<not> isSentenceEnd x"
  using set_sentenceOf [of c n] by (auto simp: isSentenceEnd_def)

lemma trim_sentenceOf: "\<not> isWhiteSpace c \<Longrightarrow> trim (sentenceOf c n) = sentenceOf c n"
  by (rule trim_unchanged) (simp_all add: sentenceOf_nonempty hd_sentenceOf last_sentenceOf)

lemma trim_closed:
  "s \<noteq> [] \<Longrightarrow> \<not> isWhiteSpace (hd s) \<Longrightarrow> trim (s @ t @ [46]) = s @ t @ [46]"
  by (rule trim_unchanged) (simp_all add: isWhiteSpace_def)

lemma split_twoSentences:
  "splitRegex isSentenceEnd twoSentences = [sentenceOf 97 99, sentenceOf 98 99, []]"
proof -
  have a: "\<forall>x\<in>set (sentenceOf 97 99). \<not> isSentenceEnd x"
    by (rule sentenceOf_no_end) simp_all
  have b: "\<forall>x\<in>set (sentenceOf 98 99). \<not> isSentenceEnd x"
    by (rule sentenceOf_no_end) simp_all
  have d: "isSentenceEnd 46"
    by (simp add: isSentenceEnd_def)
  have "splitRuns isSentenceEnd False (sentenceOf 97 99 @ 46 # sentenceOf 98 99 @ 46 # [])
      = sentenceOf 97 99 # splitRuns isSentenceEnd True (sentenceOf 98 99 @ 46 # [])"
    using a d by (rule splitRuns_piece)
  also have "splitRuns isSentenceEnd True (sentenceOf 98 99 @ 46 # [])
      = sentenceOf 98 99 # splitRuns isSentenceEnd True []"
    using b sentenceOf_nonempty d by (rule splitRuns_piece_inRun)
  finally show ?thesis
    by (simp add: splitRegex_def twoSentences_def)
qed

lemma letters_not_whitespace: "\<not> isWhiteSpace 97" "\<not> isWhiteSpace 98"
  by (simp_all add: isWhiteSpace_def)

lemma sentences_twoSentences:
  "filter (\<lambda>s. trim s \<noteq> []) (splitRegex isSentenceEnd twoSentences)
     = [sentenceOf 97 99, sentenceOf 98 99]"
  by (simp add: split_twoSentences trim_sentenceOf letters_not_whitespace sentenceOf_nonempty) (simp add: trim_def)

lemma overlap_words:
  "sliceLast (min 20 (length (splitChar 32 (sentenceOf 97 99)) div 2))
      (splitChar 32 (sentenceOf 97 99)) = replicate 20 (replicate 9 97)"
  by (simp add: splitChar_sentenceOf sliceLast_def)

lemma overlap_text:
  "joinWith 32 (replicate 20 (replicate 9 97)) \<noteq> []
   \<and> hd (joinWith 32 (replicate 20 (replicate 9 97))) = 97
   \<and> length (joinWith 32 (replicate 20 (replicate 9 97))) = 199"
proof -
  have r: "replicate 20 (replicate 9 (97::nat)) = replicate 9 97 # replicate 19 (replicate 9 97)"
    using replicate_Suc [of 19 "replicate 9 (97::nat)"] by simp
  have h: "hd (replicate 9 (97::nat)) = 97"
    using hd_replicate [of 9 "97::nat"] by simp
  have "length (joinWith 32 (replicate (Suc 19) (replicate 9 (97::nat)))) = Suc 19 * 9 + 19"
    using length_joinWith_replicate [of 32 19 "replicate 9 (97::nat)"] by simp
  then have l: "length (joinWith 32 (replicate 20 (replicate 9 (97::nat)))) = 199"
    by simp
  have n: "replicate 9 (97::nat) \<noteq> []" by simp
  show ?thesis
    using l joinWith_nonempty [OF n, of 32 "replicate 19 (replicate 9 97)"]
      hd_joinWith [OF n, of 32 "replicate 19 (replicate 9 97)"] h
    unfolding r [symmetric] by simp
qed

lemma chunkLoop_twoSentences:
  "chunkLoop 1000 100 [] [] [sentenceOf 97 99, sentenceOf 98 99]
     = ([sentenceOf 97 99 @ js ''.''],
        joinWith 32 (replicate 20 (replicate 9 97)) @ js ''. '' @ sentenceOf 98 99)"
  by (simp add: trim_sentenceOf letters_not_whitespace sentenceOf_nonempty length_sentenceOf overlap_words
      overlap_text js_def Let_def)

text \<open>
  Claim C5 does not hold of the code. The text \<open>twoSentences\<close> has two sentences of 999
  characters, none longer than \<open>maxChunkSize = 1000\<close>. The first fills the buffer; the second
  closes it, and the new buffer is the overlap (the last 20 words of the closed chunk, 199
  characters), a period and a space, and the whole second sentence. The length of this
  buffer is never compared with \<open>maxChunkSize\<close>, and the final flush emits it as a chunk of
  1201 characters, 200 more than \<open>maxChunkSize\<close> and the period.
\<close>

theorem chunkText_exceeds_maxChunkSize:
  "map length (filter (\<lambda>s. length (trim s) > 0) (splitRegex isSentenceEnd twoSentences))
     = [999, 999]
   \<and> chunkText twoSentences 1000 100
     = [sentenceOf 97 99 @ js ''.'',
        joinWith 32 (replicate 20 (replicate 9 97)) @ js ''. '' @ sentenceOf 98 99 @ js ''.'']
   \<and> map length (chunkText twoSentences 1000 100) = [1000, 1201]"
proof -
  let ?o = "joinWith 32 (replicate 20 (replicate 9 97))"
  have t1: "trim (sentenceOf 97 99 @ [] @ [46]) = sentenceOf 97 99 @ [] @ [46]"
    by (rule trim_closed) (simp_all add: sentenceOf_nonempty hd_sentenceOf letters_not_whitespace)
  have t2: "trim (?o @ (js ''. '' @ sentenceOf 98 99) @ [46])
      = ?o @ (js ''. '' @ sentenceOf 98 99) @ [46]"
    by (rule trim_closed) (simp_all add: overlap_text letters_not_whitespace)
  have "chunkText twoSentences 1000 100
     = [sentenceOf 97 99 @ js ''.'', ?o @ js ''. '' @ sentenceOf 98 99 @ js ''.'']"
    using t1 t2
    by (simp add: chunkText_def sentences_twoSentences chunkLoop_twoSentences overlap_text
        length_sentenceOf js_def del: chunkLoop.simps)
  then show ?thesis
    by (simp add: sentences_twoSentences length_sentenceOf overlap_text js_def)
qed

end
